theory Spec2Isabelle
  imports Complex_Main
begin

section \<open>Data model\<close>

text \<open>
  The program is \<open>process_files_with_adjusted_filtering\<close> of \<open>app.py\<close>, a function of
  three pandas tables run inside a Streamlit script.

  A cell of a table is a text, an integer, a float or the missing value. \<open>NaN\<close> is the
  missing value; Python's None in an output row is the same null here. A float is modelled
  by the rational it denotes, which is exact for the comparisons the program makes; the
  infinities are left out.
\<close>

datatype cell = NaN | Str string | Integer int | Float rat

text \<open>
  A row gives a cell for a column name; a table (DataFrame) is its column names and its
  rows in order. Only cells of names in \<open>columns\<close> belong to the table, and a row of a
  table has a cell, possibly the missing value, for every column of the table. The row
  labels of a DataFrame are left out: the program never reads them.
\<close>

type_synonym row = "string \<Rightarrow> cell"

record frame =
  columns :: "string list"
  rows :: "row list"

text \<open>
  The three tables the caller hands over, as three separate objects (the script reads each
  from its own file). The function assigns into them, so a run returns them as well.
\<close>

record store =
  top_100_data :: frame
  nadac_data :: frame
  reimbursement_data :: frame

text \<open>
  What the program takes from the library and the source does not fix: the text of a float
  (\<open>str\<close> of a float), and the order \<open>sort_values(ascending=False)\<close> puts a column of
  numbers in, given as the positions of the rows in sorted order. The order is a function
  of the keys alone, as it is in pandas.
\<close>

record library =
  float_str :: "rat \<Rightarrow> string"
  argsort :: "rat list \<Rightarrow> nat list"

record output_row =
  Drug_Name :: cell
  NDC :: cell
  NADAC :: cell
  Bin :: cell
  PCN :: cell
  Network :: cell
  Reimbursement :: cell
  Price :: cell

text \<open>
  \<open>Stopped msg\<close> is \<open>st.error(msg)\<close> followed by \<open>st.stop()\<close>, which ends the script
  run; the others are the Python exceptions of the same name.
\<close>

datatype error = Stopped string | NameError | TypeError | IndexError

section \<open>Strings\<close>

definition digit_char :: "nat \<Rightarrow> char" where
  "digit_char d = ''0123456789'' ! d"

fun str_nat :: "nat \<Rightarrow> string" where
  "str_nat n = (if n < 10 then [digit_char n] else str_nat (n div 10) @ [digit_char (n mod 10)])"

declare str_nat.simps [simp del]

definition str_int :: "int \<Rightarrow> string" where
  "str_int i = (if i < 0 then CHR ''-'' # str_nat (nat (- i)) else str_nat (nat i))"

text \<open>
  \<open>astype(str)\<close> on one cell: Python's \<open>str\<close> of the value. The missing value becomes
  the text \<open>nan\<close> (pandas before 3.0).
\<close>

fun astype_str :: "library \<Rightarrow> cell \<Rightarrow> string" where
  "astype_str L (Str s) = s"
| "astype_str L (Integer i) = str_int i"
| "astype_str L (Float r) = float_str L r"
| "astype_str L NaN = ''nan''"

text \<open>
  \<open>.str.zfill(width)\<close>, which applies Python's \<open>str.zfill\<close> to each text: a string of
  at least \<open>width\<close> characters is returned as it is; a shorter one gets zeros on the
  left, after a leading sign if there is one.
\<close>

definition zfill :: "nat \<Rightarrow> string \<Rightarrow> string" where
  "zfill width s =
     (if width \<le> length s then s
      else (case s of
              [] \<Rightarrow> replicate width CHR ''0''
            | c # rest \<Rightarrow>
                if c = CHR ''+'' \<or> c = CHR ''-''
                then c # replicate (width - length s) CHR ''0'' @ rest
                else replicate (width - length s) CHR ''0'' @ s))"

text \<open>\<open>.str.split('.').str[0]\<close>: the text before the first dot.\<close>

definition split_first :: "string \<Rightarrow> string" where
  "split_first s = takeWhile (\<lambda>c. c \<noteq> CHR ''.'') s"

text \<open>The identifier of a product or price row, and of a reimbursement row.\<close>

definition normalize_ndc :: "library \<Rightarrow> cell \<Rightarrow> cell" where
  "normalize_ndc L c = Str (zfill 11 (astype_str L c))"

definition normalize_dispensed :: "library \<Rightarrow> cell \<Rightarrow> cell" where
  "normalize_dispensed L c = Str (zfill 11 (split_first (astype_str L c)))"

section \<open>Required columns\<close>

definition required_columns :: "(string \<times> string list) list" where
  "required_columns =
     [(''Top 100'', [''NDC'', ''Drug'']),
      (''NADAC'', [''NDC'', ''NADAC Per Unit'']),
      (''Reimbursement'', [''Dispensed Item NDC'', ''Primary Remit Amount''])]"

definition lower_char :: "char \<Rightarrow> char" where
  "lower_char c =
     (case map_of (zip ''ABCDEFGHIJKLMNOPQRSTUVWXYZ'' ''abcdefghijklmnopqrstuvwxyz'') c of
        None \<Rightarrow> c | Some l \<Rightarrow> l)"

text \<open>\<open>f"{file_name.lower().replace(' ', '_')}_data"\<close>\<close>

definition variable_name :: "string \<Rightarrow> string" where
  "variable_name file_name =
     map (\<lambda>c. if c = CHR '' '' then CHR ''_'' else c) (map lower_char file_name) @ ''_data''"

text \<open>\<open>eval\<close> of a variable name in the function's scope.\<close>

definition eval_name :: "store \<Rightarrow> string \<Rightarrow> frame option" where
  "eval_name s name =
     (if name = ''top_100_data'' then Some (top_100_data s)
      else if name = ''nadac_data'' then Some (nadac_data s)
      else if name = ''reimbursement_data'' then Some (reimbursement_data s)
      else None)"

definition must_contain :: "string \<Rightarrow> string \<Rightarrow> string" where
  "must_contain file_name column =
     file_name @ '' file must contain '' @ [CHR 0x27] @ column @ [CHR 0x27] @ '' column.''"

fun check_columns :: "store \<Rightarrow> string \<Rightarrow> string list \<Rightarrow> error option" where
  "check_columns s file_name [] = None"
| "check_columns s file_name (column # rest) =
     (case eval_name s (variable_name file_name) of
        None \<Rightarrow> Some NameError
      | Some df \<Rightarrow>
          if column \<notin> set (columns df) then Some (Stopped (must_contain file_name column))
          else check_columns s file_name rest)"

fun check_required :: "store \<Rightarrow> (string \<times> string list) list \<Rightarrow> error option" where
  "check_required s [] = None"
| "check_required s ((file_name, cols) # rest) =
     (case check_columns s file_name cols of
        Some e \<Rightarrow> Some e
      | None \<Rightarrow> check_required s rest)"

section \<open>Standardizing the identifiers\<close>

text \<open>\<open>df[c] = values\<close>: the column is replaced in the table itself (added if new).\<close>

definition set_column :: "string \<Rightarrow> (row \<Rightarrow> cell) \<Rightarrow> frame \<Rightarrow> frame" where
  "set_column c f df =
     df\<lparr>columns := (if c \<in> set (columns df) then columns df else columns df @ [c]),
        rows := map (\<lambda>r. r(c := f r)) (rows df)\<rparr>"

definition standardize :: "library \<Rightarrow> store \<Rightarrow> store" where
  "standardize L s =
     s\<lparr>top_100_data := set_column ''NDC'' (\<lambda>r. normalize_ndc L (r ''NDC'')) (top_100_data s),
       nadac_data := set_column ''NDC'' (\<lambda>r. normalize_ndc L (r ''NDC'')) (nadac_data s),
       reimbursement_data :=
         set_column ''Dispensed Item NDC''
           (\<lambda>r. normalize_dispensed L (r ''Dispensed Item NDC'')) (reimbursement_data s)\<rparr>"

section \<open>Filtering the reimbursement rows\<close>

fun fillna :: "cell \<Rightarrow> cell \<Rightarrow> cell" where
  "fillna v NaN = v"
| "fillna v c = c"

text \<open>\<open>c > 0\<close>; a string against a number raises.\<close>

fun gt_zero :: "cell \<Rightarrow> error + bool" where
  "gt_zero (Integer i) = Inr (0 < i)"
| "gt_zero (Float r) = Inr (0 < r)"
| "gt_zero NaN = Inr False"
| "gt_zero (Str s) = Inl TypeError"

fun remit_mask :: "row list \<Rightarrow> error + bool list" where
  "remit_mask [] = Inr []"
| "remit_mask (r # rs) =
     (case gt_zero (fillna (Integer 0) (r ''Primary Remit Amount'')) of
        Inl e \<Rightarrow> Inl e
      | Inr b \<Rightarrow> (case remit_mask rs of Inl e \<Rightarrow> Inl e | Inr bs \<Rightarrow> Inr (b # bs)))"

text \<open>\<open>df[mask]\<close>: a new table with the rows where the mask is true.\<close>

definition boolean_index :: "frame \<Rightarrow> bool list \<Rightarrow> frame" where
  "boolean_index df keep =
     \<lparr>columns = columns df, rows = map fst (filter snd (zip (rows df) keep))\<rparr>"

section \<open>The price lookup\<close>

text \<open>\<open>set_index("NDC")["NADAC Per Unit"].to_dict()\<close>: a later row overwrites an earlier one.\<close>

definition nadac_lookup :: "frame \<Rightarrow> (cell \<rightharpoonup> cell)" where
  "nadac_lookup df = foldl (\<lambda>m r. m(r ''NDC'' \<mapsto> r ''NADAC Per Unit'')) Map.empty (rows df)"

section \<open>The best match\<close>

fun numeric :: "cell \<Rightarrow> rat option" where
  "numeric (Integer i) = Some (of_int i)"
| "numeric (Float r) = Some r"
| "numeric c = None"

fun take_rows :: "row list \<Rightarrow> nat list \<Rightarrow> error + row list" where
  "take_rows rs [] = Inr []"
| "take_rows rs (i # ixs) =
     (if i < length rs
      then (case take_rows rs ixs of Inl e \<Rightarrow> Inl e | Inr xs \<Rightarrow> Inr (rs ! i # xs))
      else Inl IndexError)"

text \<open>
  \<open>sort_values(by="Primary Remit Amount", ascending=False)\<close>: rows with a number in
  the library's descending order, rows with a missing value last.
\<close>

definition sort_values :: "library \<Rightarrow> row list \<Rightarrow> error + row list" where
  "sort_values L rs =
     (let non_nans = filter (\<lambda>r. r ''Primary Remit Amount'' \<noteq> NaN) rs;
          nans = filter (\<lambda>r. r ''Primary Remit Amount'' = NaN) rs
      in case those (map (\<lambda>r. numeric (r ''Primary Remit Amount'')) non_nans) of
           None \<Rightarrow> Inl TypeError
         | Some keys \<Rightarrow>
             (case take_rows non_nans (argsort L keys) of
                Inl e \<Rightarrow> Inl e
              | Inr sorted_rows \<Rightarrow> Inr (sorted_rows @ nans)))"

fun iloc0 :: "row list \<Rightarrow> error + row" where
  "iloc0 [] = Inl IndexError"
| "iloc0 (r # rs) = Inr r"

text \<open>\<open>Series.get(key, default)\<close> on a row of a table with the given columns.\<close>

definition series_get :: "string list \<Rightarrow> row \<Rightarrow> string \<Rightarrow> cell \<Rightarrow> cell" where
  "series_get cols r key dflt = (if key \<in> set cols then r key else dflt)"

text \<open>
  \<open>valid[valid["Dispensed Item NDC"] == ndc]\<close>. Both sides of the comparison are texts
  by then, so it is equality of cells.
\<close>

definition reimbursement_match :: "frame \<Rightarrow> cell \<Rightarrow> row list" where
  "reimbursement_match valid ndc = filter (\<lambda>r. r ''Dispensed Item NDC'' = ndc) (rows valid)"

text \<open>\<open>reimbursement_match.sort_values(...).iloc[0]\<close>\<close>

definition best_match :: "library \<Rightarrow> frame \<Rightarrow> cell \<Rightarrow> error + row" where
  "best_match L valid ndc =
     (case sort_values L (reimbursement_match valid ndc) of
        Inl e \<Rightarrow> Inl e
      | Inr sorted_rows \<Rightarrow> iloc0 sorted_rows)"

section \<open>The output\<close>

text \<open>The body of the loop over the product rows: the row appended to \<open>output_rows\<close>.\<close>

definition process_row :: "library \<Rightarrow> (cell \<rightharpoonup> cell) \<Rightarrow> frame \<Rightarrow> row \<Rightarrow> error + output_row" where
  "process_row L lookup valid r =
     (let ndc = r ''NDC'';
          drug_name = r ''Drug'';
          nadac_price = (case lookup ndc of None \<Rightarrow> NaN | Some v \<Rightarrow> v)
      in if reimbursement_match valid ndc \<noteq> []
         then (case best_match L valid ndc of
                 Inl e \<Rightarrow> Inl e
               | Inr bm \<Rightarrow>
                   Inr \<lparr>Drug_Name = drug_name, NDC = ndc, NADAC = nadac_price,
                        Bin = series_get (columns valid) bm ''Primary Third Party Bin''
                                (Str ''Not Available''),
                        PCN = series_get (columns valid) bm ''Primary Third Party PCN''
                                (Str ''Not Available''),
                        Network = series_get (columns valid) bm ''Primary Network Reimbursement''
                                (Str ''Not Available''),
                        Reimbursement = series_get (columns valid) bm ''Primary Remit Amount''
                                (Float 0),
                        Price = NaN\<rparr>)
         else Inr \<lparr>Drug_Name = drug_name, NDC = ndc, NADAC = nadac_price,
                   Bin = Str ''Not Available'', PCN = Str ''Not Available'',
                   Network = Str ''Not Available'', Reimbursement = Float 0, Price = NaN\<rparr>)"

fun output_loop ::
  "library \<Rightarrow> (cell \<rightharpoonup> cell) \<Rightarrow> frame \<Rightarrow> row list \<Rightarrow> output_row list \<Rightarrow> error + output_row list"
where
  "output_loop L lookup valid [] output_rows = Inr output_rows"
| "output_loop L lookup valid (r # rest) output_rows =
     (case process_row L lookup valid r of
        Inl e \<Rightarrow> Inl e
      | Inr out \<Rightarrow> output_loop L lookup valid rest (output_rows @ [out]))"

definition process_files_with_adjusted_filtering ::
  "library \<Rightarrow> store \<Rightarrow> (error + output_row list) \<times> store"
where
  "process_files_with_adjusted_filtering L s =
     (case check_required s required_columns of
        Some e \<Rightarrow> (Inl e, s)
      | None \<Rightarrow>
          (let s1 = standardize L s in
           case remit_mask (rows (reimbursement_data s1)) of
             Inl e \<Rightarrow> (Inl e, s1)
           | Inr keep \<Rightarrow>
               (let valid_reimbursement_data = boolean_index (reimbursement_data s1) keep;
                    lookup = nadac_lookup (nadac_data s1)
                in (output_loop L lookup valid_reimbursement_data (rows (top_100_data s1)) [],
                    s1))))"

section \<open>Library contracts and example inputs\<close>

text \<open>
  What the documentation of \<open>sort_values\<close> promises of the order: every row once, keys
  descending. The default sorting algorithm is not a stable one, so the order of rows
  with equal keys is left to the library.
\<close>

definition argsort_ok :: "library \<Rightarrow> bool" where
  "argsort_ok L \<longleftrightarrow>
     (\<forall>keys. distinct (argsort L keys) \<and> set (argsort L keys) = {0..<length keys} \<and>
        sorted_wrt (\<lambda>i j. keys ! j \<le> keys ! i) (argsort L keys))"


definition stable_argsort :: "rat list \<Rightarrow> nat list" where
  "stable_argsort keys = sort_key (\<lambda>i. - (keys ! i)) [0..<length keys]"

definition example_library :: library where
  "example_library =
     \<lparr>float_str = (\<lambda>r. str_int \<lfloor>r\<rfloor> @ ''.0''), argsort = stable_argsort\<rparr>"

text \<open>A row from the cells it has; every other cell is missing.\<close>

definition mk_row :: "(string \<times> cell) list \<Rightarrow> row" where
  "mk_row kvs = (\<lambda>c. case map_of kvs c of None \<Rightarrow> NaN | Some v \<Rightarrow> v)"



text \<open>
  The example of the specification. The reimbursement table has the columns its two
  records carry between them; a record without a value for a column has a missing cell.
\<close>

definition example_store :: store where
  "example_store =
     \<lparr>top_100_data = \<lparr>columns = [''NDC'', ''Drug''],
         rows = [mk_row [(''NDC'', Str ''123''), (''Drug'', Str ''Aspirin'')]]\<rparr>,
      nadac_data = \<lparr>columns = [''NDC'', ''NADAC Per Unit''],
         rows = [mk_row [(''NDC'', Str ''00000000123''), (''NADAC Per Unit'', Float (45 / 100))]]\<rparr>,
      reimbursement_data = \<lparr>columns = [''Dispensed Item NDC'', ''Primary Remit Amount'',
            ''Primary Network Reimbursement'', ''Primary Third Party Bin''],
         rows = [mk_row [(''Dispensed Item NDC'', Str ''123.0''),
                   (''Primary Remit Amount'', Float (25 / 2)),
                   (''Primary Network Reimbursement'', Str ''NET1'')],
                 mk_row [(''Dispensed Item NDC'', Str ''00000000123''),
                   (''Primary Remit Amount'', Float 8),
                   (''Primary Third Party Bin'', Str ''610014'')]]\<rparr>\<rparr>"

text \<open>One matching record with Bin and PCN and no network value.\<close>

definition null_network_store :: store where
  "null_network_store =
     \<lparr>top_100_data = \<lparr>columns = [''NDC'', ''Drug''],
         rows = [mk_row [(''NDC'', Str ''123''), (''Drug'', Str ''Aspirin'')]]\<rparr>,
      nadac_data = \<lparr>columns = [''NDC'', ''NADAC Per Unit''],
         rows = [mk_row [(''NDC'', Str ''123''), (''NADAC Per Unit'', Float (45 / 100))]]\<rparr>,
      reimbursement_data = \<lparr>columns = [''Dispensed Item NDC'', ''Primary Remit Amount'',
            ''Primary Third Party Bin'', ''Primary Third Party PCN'',
            ''Primary Network Reimbursement''],
         rows = [mk_row [(''Dispensed Item NDC'', Str ''123''),
                   (''Primary Remit Amount'', Float (25 / 2)),
                   (''Primary Third Party Bin'', Str ''610014''),
                   (''Primary Third Party PCN'', Str ''ADV'')]]\<rparr>\<rparr>"


text \<open>The example with the product table lacking its name column.\<close>

definition no_drug_store :: store where
  "no_drug_store =
     example_store\<lparr>top_100_data := \<lparr>columns = [''NDC''],
        rows = [mk_row [(''NDC'', Str ''123'')]]\<rparr>\<rparr>"

text \<open>
  Two products, one without any reimbursement; reimbursement rows with a missing, a
  negative and a positive amount for the first product, the positive one without a network.
\<close>

definition mixed_store :: store where
  "mixed_store =
     \<lparr>top_100_data = \<lparr>columns = [''NDC'', ''Drug''],
         rows = [mk_row [(''NDC'', Integer 123), (''Drug'', Str ''Aspirin'')],
                 mk_row [(''NDC'', Str ''999''), (''Drug'', Str ''Ibuprofen'')]]\<rparr>,
      nadac_data = \<lparr>columns = [''NDC'', ''NADAC Per Unit''],
         rows = [mk_row [(''NDC'', Integer 123), (''NADAC Per Unit'', Float (45 / 100))]]\<rparr>,
      reimbursement_data = \<lparr>columns = [''Dispensed Item NDC'', ''Primary Remit Amount'',
            ''Primary Network Reimbursement''],
         rows = [mk_row [(''Dispensed Item NDC'', Str ''123''),
                   (''Primary Network Reimbursement'', Str ''NETX'')],
                 mk_row [(''Dispensed Item NDC'', Float 123),
                   (''Primary Remit Amount'', Integer (- 3)),
                   (''Primary Network Reimbursement'', Str ''NETY'')],
                 mk_row [(''Dispensed Item NDC'', Str ''123.0''),
                   (''Primary Remit Amount'', Float 7)],
                 mk_row [(''Dispensed Item NDC'', Str ''555''),
                   (''Primary Remit Amount'', Float 9),
                   (''Primary Network Reimbursement'', Str ''NETZ'')]]\<rparr>\<rparr>"


definition mixed_output :: "output_row list" where
  "mixed_output =
     [\<lparr>Drug_Name = Str ''Aspirin'', NDC = Str ''00000000123'', NADAC = Float (45 / 100),
       Bin = Str ''Not Available'', PCN = Str ''Not Available'', Network = NaN,
       Reimbursement = Float 7, Price = NaN\<rparr>,
      \<lparr>Drug_Name = Str ''Ibuprofen'', NDC = Str ''00000000999'', NADAC = NaN,
       Bin = Str ''Not Available'', PCN = Str ''Not Available'',
       Network = Str ''Not Available'', Reimbursement = Float 0, Price = NaN\<rparr>]"

text \<open>
  The required columns a store lacks, dataset by dataset in the order they are checked:
  identifier and name for products, identifier and unit price for prices, identifier and
  remit amount for reimbursements.
\<close>

definition missing_columns :: "store \<Rightarrow> (string \<times> string) list" where
  "missing_columns s =
     [(''Top 100'', c). c \<leftarrow> [''NDC'', ''Drug''], c \<notin> set (columns (top_100_data s))] @
     [(''NADAC'', c). c \<leftarrow> [''NDC'', ''NADAC Per Unit''], c \<notin> set (columns (nadac_data s))] @
     [(''Reimbursement'', c). c \<leftarrow> [''Dispensed Item NDC'', ''Primary Remit Amount''],
        c \<notin> set (columns (reimbursement_data s))]"

text \<open>The filter's predicate: the remit amount, with a missing one counted as 0, is above 0.\<close>

definition positive_remit :: "row \<Rightarrow> bool" where
  "positive_remit r \<longleftrightarrow>
     (case numeric (r ''Primary Remit Amount'') of None \<Rightarrow> False | Some v \<Rightarrow> 0 < v)"

text \<open>The sort key of a row that has a number for its remit amount.\<close>

definition remit_key :: "row \<Rightarrow> rat" where
  "remit_key r = the (numeric (r ''Primary Remit Amount''))"

text \<open>The filtered reimbursement table of a run: the positive rows of the standardized table.\<close>

definition valid_reimbursement :: "library \<Rightarrow> store \<Rightarrow> frame" where
  "valid_reimbursement L s =
     \<lparr>columns = columns (reimbursement_data (standardize L s)),
      rows = filter positive_remit (rows (reimbursement_data (standardize L s)))\<rparr>"

text \<open>The four reimbursement fields of an output row without a match, and with the match \<open>bm\<close>.\<close>

definition no_match_fields :: "output_row \<Rightarrow> bool" where
  "no_match_fields out \<longleftrightarrow>
     Bin out = Str ''Not Available'' \<and> PCN out = Str ''Not Available'' \<and>
     Network out = Str ''Not Available'' \<and> Reimbursement out = Float 0"

definition match_fields :: "string list \<Rightarrow> row \<Rightarrow> output_row \<Rightarrow> bool" where
  "match_fields cols bm out \<longleftrightarrow>
     Bin out = series_get cols bm ''Primary Third Party Bin'' (Str ''Not Available'') \<and>
     PCN out = series_get cols bm ''Primary Third Party PCN'' (Str ''Not Available'') \<and>
     Network out = series_get cols bm ''Primary Network Reimbursement'' (Str ''Not Available'') \<and>
     Reimbursement out = series_get cols bm ''Primary Remit Amount'' (Float 0)"

section \<open>Identifier normalization\<close>

lemma length_zfill: "width \<le> length (zfill width s)"
  by (cases s) (auto simp: zfill_def)

lemma zfill_long: "width \<le> length s \<Longrightarrow> zfill width s = s"
  by (simp add: zfill_def)

lemma zfill_zfill: "zfill width (zfill width s) = zfill width s"
  by (rule zfill_long) (rule length_zfill)

lemma split_first_no_dot: "CHR ''.'' \<notin> set s \<Longrightarrow> split_first s = s"
  by (auto simp: split_first_def takeWhile_eq_all_conv)

lemma no_dot_split_first: "CHR ''.'' \<notin> set (split_first s)"
  unfolding split_first_def by (auto dest: set_takeWhileD)

lemma no_dot_zfill: "CHR ''.'' \<notin> set s \<Longrightarrow> CHR ''.'' \<notin> set (zfill width s)"
  by (cases s) (auto simp: zfill_def)

lemma normalize_ndc_idem: "normalize_ndc L (normalize_ndc L c) = normalize_ndc L c"
  by (simp add: normalize_ndc_def zfill_zfill)

lemma normalize_dispensed_idem:
  "normalize_dispensed L (normalize_dispensed L c) = normalize_dispensed L c"
  by (simp add: normalize_dispensed_def zfill_zfill split_first_no_dot no_dot_zfill
      no_dot_split_first)

text \<open>
  C7. Normalizing a normalized identifier changes nothing, for the product and price
  normalizer and for the reimbursement normalizer; a string of 11 or more characters is
  returned whole (for the reimbursement normalizer, when it has no dot to cut at), so a
  longer value is not truncated.
\<close>

theorem normalization_idempotent:
  "normalize_ndc L (normalize_ndc L c) = normalize_ndc L c \<and>
   normalize_dispensed L (normalize_dispensed L c) = normalize_dispensed L c \<and>
   (11 \<le> length s \<longrightarrow> normalize_ndc L (Str s) = Str s) \<and>
   (11 \<le> length s \<and> CHR ''.'' \<notin> set s \<longrightarrow> normalize_dispensed L (Str s) = Str s)"
proof (intro conjI impI)
  show "normalize_ndc L (normalize_ndc L c) = normalize_ndc L c"
    by (rule normalize_ndc_idem)
  show "normalize_dispensed L (normalize_dispensed L c) = normalize_dispensed L c"
    by (rule normalize_dispensed_idem)
  show "normalize_ndc L (Str s) = Str s" if "11 \<le> length s"
    using that by (simp add: normalize_ndc_def zfill_long)
  show "normalize_dispensed L (Str s) = Str s" if "11 \<le> length s \<and> CHR ''.'' \<notin> set s"
    using that by (simp add: normalize_dispensed_def zfill_long split_first_no_dot)
qed

theorem normalization_idempotent_witness:
  "11 \<le> length ''123456789012'' \<and> CHR ''.'' \<notin> set ''123456789012'' \<and>
   normalize_ndc example_library (Str ''123456789012'') = Str ''123456789012'' \<and>
   normalize_dispensed example_library (Str ''123456789012'') = Str ''123456789012'' \<and>
   normalize_dispensed example_library (Str ''123.0'') = Str ''00000000123'' \<and>
   normalize_dispensed example_library (Str ''00000000123'') = Str ''00000000123''"
  using normalization_idempotent [of example_library "Str ''123.0''" "''123456789012''"]
  by (simp add: normalize_dispensed_def split_first_def zfill_def eval_nat_numeral)

section \<open>The run, step by step\<close>

lemma variable_names:
  "variable_name ''Top 100'' = ''top_100_data''"
  "variable_name ''NADAC'' = ''nadac_data''"
  "variable_name ''Reimbursement'' = ''reimbursement_data''"
  by (simp_all add: variable_name_def lower_char_def)

lemma eval_names:
  "eval_name s (variable_name ''Top 100'') = Some (top_100_data s)"
  "eval_name s (variable_name ''NADAC'') = Some (nadac_data s)"
  "eval_name s (variable_name ''Reimbursement'') = Some (reimbursement_data s)"
  by (simp_all add: variable_names eval_name_def)

lemma check_required_missing:
  "check_required s required_columns =
     (case missing_columns s of [] \<Rightarrow> None
      | (file_name, column) # rest \<Rightarrow> Some (Stopped (must_contain file_name column)))"
  by (simp add: required_columns_def missing_columns_def eval_names)

lemma check_required_None:
  "check_required s required_columns = None \<longleftrightarrow> missing_columns s = []"
  by (simp add: check_required_missing split: list.splits)

subsection \<open>The filter\<close>

lemma gt_zero_fillna:
  "gt_zero (fillna (Integer 0) c) = Inr b \<Longrightarrow>
     b = (case numeric c of None \<Rightarrow> False | Some v \<Rightarrow> 0 < v)"
  by (cases c) auto

lemma gt_zero_fillna_error:
  "gt_zero (fillna (Integer 0) c) = Inl e \<longleftrightarrow> e = TypeError \<and> (\<exists>t. c = Str t)"
  by (cases c) auto

lemma remit_mask_filter:
  "remit_mask rs = Inr keep \<Longrightarrow>
     length keep = length rs \<and> map fst (filter snd (zip rs keep)) = filter positive_remit rs"
proof (induction rs arbitrary: keep)
  case Nil
  then show ?case by simp
next
  case (Cons r rs)
  then show ?case
    by (auto simp: positive_remit_def split: sum.splits dest!: gt_zero_fillna)
qed

lemma remit_mask_error:
  "remit_mask rs = Inl e \<Longrightarrow>
     e = TypeError \<and> (\<exists>r\<in>set rs. \<exists>t. r ''Primary Remit Amount'' = Str t)"
proof (induction rs)
  case Nil
  then show ?case by simp
next
  case (Cons r rs)
  then show ?case
    by (auto simp: gt_zero_fillna_error split: sum.splits)
qed

lemma remit_mask_total:
  "\<forall>r\<in>set rs. \<forall>t. r ''Primary Remit Amount'' \<noteq> Str t \<Longrightarrow> \<exists>keep. remit_mask rs = Inr keep"
  by (cases "remit_mask rs") (auto dest: remit_mask_error)


lemma columns_boolean_index: "columns (boolean_index df keep) = columns df"
  by (simp add: boolean_index_def)

subsection \<open>Sorting and the best match\<close>

lemma take_rows_map:
  "\<forall>i\<in>set ixs. i < length rs \<Longrightarrow> take_rows rs ixs = Inr (map ((!) rs) ixs)"
  by (induction ixs) auto

lemma those_map_Some:
  "\<forall>x\<in>set xs. \<exists>v. f x = Some v \<Longrightarrow> those (map f xs) = Some (map (\<lambda>x. the (f x)) xs)"
  by (induction xs) auto

lemma positive_remit_numeric:
  "positive_remit r \<Longrightarrow>
     r ''Primary Remit Amount'' \<noteq> NaN \<and> numeric (r ''Primary Remit Amount'') = Some (remit_key r) \<and>
     0 < remit_key r"
  by (cases "r ''Primary Remit Amount''") (auto simp: positive_remit_def remit_key_def)

lemma sort_values_positive:
  assumes ok: "argsort_ok L" and pos: "\<forall>r\<in>set rs. positive_remit r"
  shows "sort_values L rs = Inr (map ((!) rs) (argsort L (map remit_key rs)))"
proof -
  have nn: "filter (\<lambda>r. r ''Primary Remit Amount'' \<noteq> NaN) rs = rs"
    using pos by (auto simp: filter_id_conv dest: positive_remit_numeric)
  have n: "filter (\<lambda>r. r ''Primary Remit Amount'' = NaN) rs = []"
    using pos by (auto simp: filter_empty_conv dest: positive_remit_numeric)
  have keys: "those (map (\<lambda>r. numeric (r ''Primary Remit Amount'')) rs) = Some (map remit_key rs)"
    using pos by (subst those_map_Some) (auto simp: remit_key_def dest: positive_remit_numeric)
  have "set (argsort L (map remit_key rs)) = {0..<length rs}"
    using ok by (simp add: argsort_ok_def)
  then have "take_rows rs (argsort L (map remit_key rs)) =
      Inr (map ((!) rs) (argsort L (map remit_key rs)))"
    by (intro take_rows_map) simp
  then show ?thesis
    by (simp add: sort_values_def nn n keys)
qed

lemma argsort_nonempty:
  assumes ok: "argsort_ok L" and ne: "keys \<noteq> []"
  obtains k ks where "argsort L keys = k # ks" "k < length keys"
    "\<forall>j<length keys. keys ! j \<le> keys ! k"
proof -
  have st: "set (argsort L keys) = {0..<length keys}"
    and so: "sorted_wrt (\<lambda>i j. keys ! j \<le> keys ! i) (argsort L keys)"
    using ok by (simp_all add: argsort_ok_def)
  have "argsort L keys \<noteq> []"
    using st ne by auto
  then obtain k ks where eq: "argsort L keys = k # ks"
    by (auto simp: neq_Nil_conv)
  have k: "k < length keys"
    using st by (simp add: eq set_eq_iff) (metis order_refl)
  have mx: "keys ! j \<le> keys ! k" if "j < length keys" for j
  proof -
    from that st have "j \<in> set (k # ks)" by (simp add: eq)
    then have "j = k \<or> j \<in> set ks" by simp
    moreover have "\<forall>j\<in>set ks. keys ! j \<le> keys ! k"
      using so by (simp add: eq)
    ultimately show ?thesis by auto
  qed
  show ?thesis
    by (rule that [OF eq k]) (simp add: mx)
qed

lemma best_match_positive:
  assumes ok: "argsort_ok L" and pos: "\<forall>r\<in>set (rows valid). positive_remit r"
    and ne: "reimbursement_match valid ndc \<noteq> []"
  shows "\<exists>k ks. argsort L (map remit_key (reimbursement_match valid ndc)) = k # ks \<and>
           k < length (reimbursement_match valid ndc) \<and>
           best_match L valid ndc = Inr (reimbursement_match valid ndc ! k) \<and>
           (\<forall>r\<in>set (reimbursement_match valid ndc).
              remit_key r \<le> remit_key (reimbursement_match valid ndc ! k))"
proof -
  let ?ms = "reimbursement_match valid ndc"
  have pos': "\<forall>r\<in>set ?ms. positive_remit r"
    using pos by (simp add: reimbursement_match_def)
  have sv: "sort_values L ?ms = Inr (map ((!) ?ms) (argsort L (map remit_key ?ms)))"
    by (rule sort_values_positive [OF ok pos'])
  from ne have "map remit_key ?ms \<noteq> []" by simp
  with ok obtain k ks where eq: "argsort L (map remit_key ?ms) = k # ks"
    and k: "k < length (map remit_key ?ms)"
    and mx: "\<forall>j<length (map remit_key ?ms). map remit_key ?ms ! j \<le> map remit_key ?ms ! k"
    by (rule argsort_nonempty)
  have k': "k < length ?ms" using k by simp
  have le: "remit_key r \<le> remit_key (?ms ! k)" if "r \<in> set ?ms" for r
  proof -
    from that obtain j where j: "j < length ?ms" "r = ?ms ! j"
      by (auto simp: in_set_conv_nth)
    from mx j(1) have "map remit_key ?ms ! j \<le> map remit_key ?ms ! k" by simp
    with j k' show ?thesis by simp
  qed
  have bm: "best_match L valid ndc = Inr (?ms ! k)"
    by (simp add: best_match_def sv eq)
  show ?thesis
    using eq k' bm le by blast
qed

subsection \<open>The output loop\<close>

lemma output_loop_iff:
  "output_loop L lk valid rs acc = Inr out \<longleftrightarrow>
     (\<exists>outs. list_all2 (\<lambda>r out. process_row L lk valid r = Inr out) rs outs \<and> out = acc @ outs)"
proof (induction rs arbitrary: acc)
  case Nil
  then show ?case by auto
next
  case (Cons r rs)
  show ?case
  proof (cases "process_row L lk valid r")
    case (Inl e)
    then show ?thesis by (simp add: list_all2_Cons1)
  next
    case (Inr o1)
    then show ?thesis
      by (simp add: Cons.IH list_all2_Cons1) blast
  qed
qed

lemma boolean_index_valid:
  "remit_mask (rows (reimbursement_data (standardize L s))) = Inr keep \<Longrightarrow>
     boolean_index (reimbursement_data (standardize L s)) keep = valid_reimbursement L s"
  by (simp add: boolean_index_def valid_reimbursement_def remit_mask_filter)

lemma process_stopped:
  "missing_columns s = (file_name, column) # rest \<Longrightarrow>
     process_files_with_adjusted_filtering L s = (Inl (Stopped (must_contain file_name column)), s)"
  by (simp add: process_files_with_adjusted_filtering_def check_required_missing)

lemma process_checked:
  "missing_columns s = [] \<Longrightarrow>
     process_files_with_adjusted_filtering L s =
       (case remit_mask (rows (reimbursement_data (standardize L s))) of
          Inl e \<Rightarrow> (Inl e, standardize L s)
        | Inr keep \<Rightarrow>
            (output_loop L (nadac_lookup (nadac_data (standardize L s))) (valid_reimbursement L s)
               (rows (top_100_data (standardize L s))) [], standardize L s))"
  by (auto simp: process_files_with_adjusted_filtering_def check_required_missing Let_def
      boolean_index_valid split: sum.splits)

lemma process_Inr:
  assumes "process_files_with_adjusted_filtering L s = (Inr out, s')"
  shows "missing_columns s = [] \<and> s' = standardize L s \<and>
     list_all2 (\<lambda>r out. process_row L (nadac_lookup (nadac_data s')) (valid_reimbursement L s) r = Inr out)
       (rows (top_100_data s')) out"
proof (cases "missing_columns s")
  case Nil
  show ?thesis
  proof (cases "remit_mask (rows (reimbursement_data (standardize L s)))")
    case (Inl e)
    with Nil assms show ?thesis by (simp add: process_checked)
  next
    case (Inr keep)
    with Nil assms show ?thesis
      by (auto simp: process_checked output_loop_iff)
  qed
next
  case (Cons p rest)
  with assms show ?thesis
    by (cases p) (simp add: process_stopped)
qed

subsection \<open>Standardized tables\<close>

lemma missing_columns_Nil:
  "missing_columns s = [] \<longleftrightarrow>
     ''NDC'' \<in> set (columns (top_100_data s)) \<and> ''Drug'' \<in> set (columns (top_100_data s)) \<and>
     ''NDC'' \<in> set (columns (nadac_data s)) \<and> ''NADAC Per Unit'' \<in> set (columns (nadac_data s)) \<and>
     ''Dispensed Item NDC'' \<in> set (columns (reimbursement_data s)) \<and>
     ''Primary Remit Amount'' \<in> set (columns (reimbursement_data s))"
  by (simp add: missing_columns_def)

lemma rows_standardize:
  "rows (top_100_data (standardize L s)) =
     map (\<lambda>r. r(''NDC'' := normalize_ndc L (r ''NDC''))) (rows (top_100_data s))"
  "rows (nadac_data (standardize L s)) =
     map (\<lambda>r. r(''NDC'' := normalize_ndc L (r ''NDC''))) (rows (nadac_data s))"
  "rows (reimbursement_data (standardize L s)) =
     map (\<lambda>r. r(''Dispensed Item NDC'' := normalize_dispensed L (r ''Dispensed Item NDC'')))
       (rows (reimbursement_data s))"
  by (simp_all add: standardize_def set_column_def)

lemma columns_standardize:
  assumes "missing_columns s = []"
  shows "columns (top_100_data (standardize L s)) = columns (top_100_data s)"
    "columns (nadac_data (standardize L s)) = columns (nadac_data s)"
    "columns (reimbursement_data (standardize L s)) = columns (reimbursement_data s)"
  using assms by (simp_all add: missing_columns_Nil standardize_def set_column_def)

subsection \<open>One output row\<close>

lemma process_row_no_match:
  assumes "reimbursement_match valid (r ''NDC'') = []"
    and "process_row L lk valid r = Inr out"
  shows "no_match_fields out"
  using assms by (auto simp: process_row_def Let_def no_match_fields_def)

lemma process_row_match:
  assumes "reimbursement_match valid (r ''NDC'') \<noteq> []"
    and "process_row L lk valid r = Inr out"
  shows "\<exists>bm. best_match L valid (r ''NDC'') = Inr bm \<and> match_fields (columns valid) bm out"
  using assms by (auto simp: process_row_def Let_def match_fields_def split: sum.splits)

lemma process_row_common:
  assumes "process_row L lk valid r = Inr out"
  shows "Drug_Name out = r ''Drug'' \<and> NDC out = r ''NDC'' \<and>
     NADAC out = (case lk (r ''NDC'') of None \<Rightarrow> NaN | Some v \<Rightarrow> v) \<and> Price out = NaN"
  using assms by (auto simp: process_row_def Let_def split: sum.splits if_splits)

lemma process_row_total:
  assumes ok: "argsort_ok L" and pos: "\<forall>x\<in>set (rows valid). positive_remit x"
  shows "\<exists>out. process_row L lk valid r = Inr out"
proof (cases "reimbursement_match valid (r ''NDC'') = []")
  case True
  then show ?thesis by (simp add: process_row_def Let_def)
next
  case False
  from best_match_positive [OF ok pos False] obtain bm
    where "best_match L valid (r ''NDC'') = Inr bm" by blast
  with False show ?thesis by (simp add: process_row_def Let_def)
qed

lemma reimbursement_match_valid:
  "reimbursement_match (valid_reimbursement L s) ndc =
     filter (\<lambda>r. positive_remit r \<and> r ''Dispensed Item NDC'' = ndc)
       (rows (reimbursement_data (standardize L s)))"
  by (simp add: reimbursement_match_def valid_reimbursement_def conj_commute)

lemma valid_reimbursement_positive:
  "\<forall>x\<in>set (rows (valid_reimbursement L s)). positive_remit x"
  by (simp add: valid_reimbursement_def)

lemma columns_valid_reimbursement:
  "columns (valid_reimbursement L s) = columns (reimbursement_data (standardize L s))"
  by (simp add: valid_reimbursement_def)

subsection \<open>One run\<close>

lemma process_nth:
  assumes run: "process_files_with_adjusted_filtering L s = (Inr out, s')"
  shows "missing_columns s = []" "s' = standardize L s"
    "length out = length (rows (top_100_data s))"
    "i < length out \<Longrightarrow>
       process_row L (nadac_lookup (nadac_data s')) (valid_reimbursement L s)
         ((rows (top_100_data s) ! i)(''NDC'' := normalize_ndc L ((rows (top_100_data s) ! i) ''NDC'')))
       = Inr (out ! i)"
proof -
  from process_Inr [OF run] have m: "missing_columns s = []" and s': "s' = standardize L s"
    and all: "list_all2 (\<lambda>r out. process_row L (nadac_lookup (nadac_data s'))
                (valid_reimbursement L s) r = Inr out) (rows (top_100_data s')) out"
    by blast+
  show "missing_columns s = []" by (rule m)
  show "s' = standardize L s" by (rule s')
  from all have len: "length (rows (top_100_data s')) = length out"
    by (rule list_all2_lengthD)
  then show len': "length out = length (rows (top_100_data s))"
    by (simp add: s' rows_standardize)
  show "process_row L (nadac_lookup (nadac_data s')) (valid_reimbursement L s)
         ((rows (top_100_data s) ! i)(''NDC'' := normalize_ndc L ((rows (top_100_data s) ! i) ''NDC'')))
       = Inr (out ! i)" if "i < length out"
  proof -
    from that len have i: "i < length (rows (top_100_data s'))" by simp
    from list_all2_nthD [OF all i]
    have "process_row L (nadac_lookup (nadac_data s')) (valid_reimbursement L s)
            (rows (top_100_data s') ! i) = Inr (out ! i)" .
    moreover have "rows (top_100_data s') ! i =
        (rows (top_100_data s) ! i)(''NDC'' := normalize_ndc L ((rows (top_100_data s) ! i) ''NDC''))"
      using that len' by (simp add: s' rows_standardize)
    ultimately show ?thesis by simp
  qed
qed

lemma process_total:
  assumes ok: "argsort_ok L" and m: "missing_columns s = []"
    and num: "\<forall>r\<in>set (rows (reimbursement_data s)). \<forall>t. r ''Primary Remit Amount'' \<noteq> Str t"
  shows "\<exists>out. process_files_with_adjusted_filtering L s = (Inr out, standardize L s)"
proof -
  have "\<forall>r\<in>set (rows (reimbursement_data (standardize L s))). \<forall>t. r ''Primary Remit Amount'' \<noteq> Str t"
    using num by (simp add: rows_standardize)
  then obtain keep where keep: "remit_mask (rows (reimbursement_data (standardize L s))) = Inr keep"
    using remit_mask_total by blast
  have "\<exists>outs. list_all2 (\<lambda>r out. process_row L lk (valid_reimbursement L s) r = Inr out) rs outs"
    for lk rs
  proof (induction rs)
    case Nil
    then show ?case by simp
  next
    case (Cons r rs)
    from process_row_total [OF ok valid_reimbursement_positive]
    obtain o1 where "process_row L lk (valid_reimbursement L s) r = Inr o1" by blast
    with Cons show ?case by (auto simp: list_all2_Cons1)
  qed
  then show ?thesis
    by (simp add: process_checked [OF m] keep output_loop_iff)
qed

text \<open>
  C4. A run that returns rows returns one per product row, in the order of the product
  table: row \<open>i\<close> carries the name and the normalized identifier of product row \<open>i\<close>. And a
  run returns rows whenever the required columns are there and no remit amount is a string.
\<close>

theorem one_output_row_per_product:
  "(process_files_with_adjusted_filtering L s = (Inr out, s') \<longrightarrow>
      length out = length (rows (top_100_data s)) \<and>
      (\<forall>i<length out.
         Drug_Name (out ! i) = (rows (top_100_data s) ! i) ''Drug'' \<and>
         NDC (out ! i) = normalize_ndc L ((rows (top_100_data s) ! i) ''NDC''))) \<and>
   (argsort_ok L \<and> missing_columns s = [] \<and>
    (\<forall>r\<in>set (rows (reimbursement_data s)). \<forall>t. r ''Primary Remit Amount'' \<noteq> Str t) \<longrightarrow>
      (\<exists>out'. process_files_with_adjusted_filtering L s = (Inr out', standardize L s) \<and>
         length out' = length (rows (top_100_data s))))"
proof (intro conjI impI allI)
  assume run: "process_files_with_adjusted_filtering L s = (Inr out, s')"
  show "length out = length (rows (top_100_data s))"
    by (rule process_nth(3) [OF run])
next
  fix i
  assume run: "process_files_with_adjusted_filtering L s = (Inr out, s')" and i: "i < length out"
  from process_row_common [OF process_nth(4) [OF run i]]
  show "Drug_Name (out ! i) = (rows (top_100_data s) ! i) ''Drug''"
    and "NDC (out ! i) = normalize_ndc L ((rows (top_100_data s) ! i) ''NDC'')"
    by simp_all
next
  assume "argsort_ok L \<and> missing_columns s = [] \<and>
    (\<forall>r\<in>set (rows (reimbursement_data s)). \<forall>t. r ''Primary Remit Amount'' \<noteq> Str t)"
  then obtain out' where run: "process_files_with_adjusted_filtering L s = (Inr out', standardize L s)"
    using process_total by blast
  with process_nth(3) [OF run]
  show "\<exists>out'. process_files_with_adjusted_filtering L s = (Inr out', standardize L s) \<and>
         length out' = length (rows (top_100_data s))"
    by blast
qed

text \<open>
  C6. When a required column is missing, the run stops with the message that names the
  first such dataset and column, returns no rows, and leaves the three tables as they were.
\<close>

theorem missing_column_stops:
  "missing_columns s \<noteq> [] \<Longrightarrow>
     process_files_with_adjusted_filtering L s =
       (Inl (Stopped (must_contain (fst (hd (missing_columns s))) (snd (hd (missing_columns s))))), s)"
  by (cases "missing_columns s") (auto simp: process_stopped)


lemma process_fields:
  assumes ok: "argsort_ok L"
    and run: "process_files_with_adjusted_filtering L s = (Inr out, s')"
    and i: "i < length out"
  shows "reimbursement_match (valid_reimbursement L s) (NDC (out ! i)) =
           filter (\<lambda>r. positive_remit r \<and> r ''Dispensed Item NDC'' = NDC (out ! i))
             (rows (reimbursement_data s'))"
    and "reimbursement_match (valid_reimbursement L s) (NDC (out ! i)) = [] \<Longrightarrow>
           no_match_fields (out ! i)"
    and "reimbursement_match (valid_reimbursement L s) (NDC (out ! i)) \<noteq> [] \<Longrightarrow>
           \<exists>k ks. argsort L (map remit_key (reimbursement_match (valid_reimbursement L s) (NDC (out ! i))))
                    = k # ks \<and>
             k < length (reimbursement_match (valid_reimbursement L s) (NDC (out ! i))) \<and>
             best_match L (valid_reimbursement L s) (NDC (out ! i)) =
               Inr (reimbursement_match (valid_reimbursement L s) (NDC (out ! i)) ! k) \<and>
             (\<forall>r\<in>set (reimbursement_match (valid_reimbursement L s) (NDC (out ! i))).
                remit_key r \<le> remit_key (reimbursement_match (valid_reimbursement L s) (NDC (out ! i)) ! k)) \<and>
             match_fields (columns (reimbursement_data s))
               (reimbursement_match (valid_reimbursement L s) (NDC (out ! i)) ! k) (out ! i)"
proof -
  let ?r = "(rows (top_100_data s) ! i)(''NDC'' := normalize_ndc L ((rows (top_100_data s) ! i) ''NDC''))"
  let ?valid = "valid_reimbursement L s"
  have m: "missing_columns s = []" and s': "s' = standardize L s"
    by (rule process_nth [OF run])+
  have row: "process_row L (nadac_lookup (nadac_data s')) ?valid ?r = Inr (out ! i)"
    by (rule process_nth(4) [OF run i])
  have ndc: "NDC (out ! i) = ?r ''NDC''"
    using process_row_common [OF row] by simp
  have cols: "columns ?valid = columns (reimbursement_data s)"
    by (simp add: columns_valid_reimbursement columns_standardize [OF m])
  show "reimbursement_match ?valid (NDC (out ! i)) =
           filter (\<lambda>r. positive_remit r \<and> r ''Dispensed Item NDC'' = NDC (out ! i))
             (rows (reimbursement_data s'))"
    by (simp only: reimbursement_match_valid s')
  show "no_match_fields (out ! i)" if "reimbursement_match ?valid (NDC (out ! i)) = []"
    using that row unfolding ndc by (rule process_row_no_match)
  show "\<exists>k ks. argsort L (map remit_key (reimbursement_match ?valid (NDC (out ! i)))) = k # ks \<and>
             k < length (reimbursement_match ?valid (NDC (out ! i))) \<and>
             best_match L ?valid (NDC (out ! i)) = Inr (reimbursement_match ?valid (NDC (out ! i)) ! k) \<and>
             (\<forall>r\<in>set (reimbursement_match ?valid (NDC (out ! i))).
                remit_key r \<le> remit_key (reimbursement_match ?valid (NDC (out ! i)) ! k)) \<and>
             match_fields (columns (reimbursement_data s))
               (reimbursement_match ?valid (NDC (out ! i)) ! k) (out ! i)"
    if ne: "reimbursement_match ?valid (NDC (out ! i)) \<noteq> []"
  proof -
    from ne have ne': "reimbursement_match ?valid (?r ''NDC'') \<noteq> []"
      unfolding ndc .
    from process_row_match [OF ne' row] obtain bm
      where bm: "best_match L ?valid (NDC (out ! i)) = Inr bm"
        and mf: "match_fields (columns (reimbursement_data s)) bm (out ! i)"
      unfolding ndc cols by blast
    from best_match_positive [OF ok valid_reimbursement_positive ne] obtain k ks
      where k: "argsort L (map remit_key (reimbursement_match ?valid (NDC (out ! i)))) = k # ks"
        "k < length (reimbursement_match ?valid (NDC (out ! i)))"
        "best_match L ?valid (NDC (out ! i)) = Inr (reimbursement_match ?valid (NDC (out ! i)) ! k)"
        "\<forall>r\<in>set (reimbursement_match ?valid (NDC (out ! i))).
            remit_key r \<le> remit_key (reimbursement_match ?valid (NDC (out ! i)) ! k)"
      by blast
    from bm k(3) have "bm = reimbursement_match ?valid (NDC (out ! i)) ! k" by simp
    with mf k show ?thesis by blast
  qed
qed


lemma match_exists_iff:
  "filter (\<lambda>r. positive_remit r \<and> r ''Dispensed Item NDC'' = ndc) rs \<noteq> [] \<longleftrightarrow>
     (\<exists>r\<in>set rs. positive_remit r \<and> r ''Dispensed Item NDC'' = ndc)"
  by (auto simp: filter_empty_conv)

lemma remit_column:
  assumes "missing_columns s = []"
  shows "series_get (columns (reimbursement_data s)) bm ''Primary Remit Amount'' d =
           bm ''Primary Remit Amount''"
  using assms by (simp add: missing_columns_Nil series_get_def)

text \<open>
  C10. In a run that returns rows, the Reimbursement of a row is a number above 0 when some
  reimbursement row with a positive amount has the row's identifier, and is 0.0 when none has.
\<close>

theorem reimbursement_positive_iff_match:
  assumes ok: "argsort_ok L"
    and run: "process_files_with_adjusted_filtering L s = (Inr out, s')"
    and i: "i < length out"
  shows "if \<exists>r\<in>set (rows (reimbursement_data s')).
              positive_remit r \<and> r ''Dispensed Item NDC'' = NDC (out ! i)
         then \<exists>v. numeric (Reimbursement (out ! i)) = Some v \<and> 0 < v
         else Reimbursement (out ! i) = Float 0"
proof -
  let ?ms = "reimbursement_match (valid_reimbursement L s) (NDC (out ! i))"
  note f = process_fields [OF ok run i]
  have m: "missing_columns s = []" by (rule process_nth(1) [OF run])
  show ?thesis
  proof (cases "?ms = []")
    case True
    then have "\<not> (\<exists>r\<in>set (rows (reimbursement_data s')).
              positive_remit r \<and> r ''Dispensed Item NDC'' = NDC (out ! i))"
      unfolding f(1) by (simp add: filter_empty_conv)
    moreover from f(2) [OF True] have "Reimbursement (out ! i) = Float 0"
      by (simp add: no_match_fields_def)
    ultimately show ?thesis by simp
  next
    case False
    then have ex: "\<exists>r\<in>set (rows (reimbursement_data s')).
              positive_remit r \<and> r ''Dispensed Item NDC'' = NDC (out ! i)"
      unfolding f(1) by (simp only: match_exists_iff)
    from f(3) [OF False] obtain k where k: "k < length ?ms"
      and mf: "match_fields (columns (reimbursement_data s)) (?ms ! k) (out ! i)"
      by blast
    from k have "?ms ! k \<in> set ?ms" by simp
    then have "positive_remit (?ms ! k)"
      unfolding f(1) by simp
    then have "numeric ((?ms ! k) ''Primary Remit Amount'') = Some (remit_key (?ms ! k))"
      and "0 < remit_key (?ms ! k)"
      by (simp_all add: positive_remit_numeric)
    moreover from mf have "Reimbursement (out ! i) = (?ms ! k) ''Primary Remit Amount''"
      by (simp add: match_fields_def remit_column [OF m])
    ultimately have "\<exists>v. numeric (Reimbursement (out ! i)) = Some v \<and> 0 < v"
      by simp
    with ex show ?thesis by simp
  qed
qed

text \<open>
  C1 as amended. For a product row with a match, each of Bin, PCN and Network is the
  selected record's cell in its column when the reimbursement table has that column (a
  missing value there stays missing), and "Not Available" when the table lacks the column,
  each field on its own.
\<close>

theorem fallback_per_absent_column:
  assumes ok: "argsort_ok L"
    and run: "process_files_with_adjusted_filtering L s = (Inr out, s')"
    and i: "i < length out"
    and ex: "\<exists>r\<in>set (rows (reimbursement_data s')).
               positive_remit r \<and> r ''Dispensed Item NDC'' = NDC (out ! i)"
  shows "\<exists>bm\<in>set (rows (reimbursement_data s')).
           positive_remit bm \<and> bm ''Dispensed Item NDC'' = NDC (out ! i) \<and>
           best_match L (valid_reimbursement L s) (NDC (out ! i)) = Inr bm \<and>
           Bin (out ! i) =
             (if ''Primary Third Party Bin'' \<in> set (columns (reimbursement_data s))
              then bm ''Primary Third Party Bin'' else Str ''Not Available'') \<and>
           PCN (out ! i) =
             (if ''Primary Third Party PCN'' \<in> set (columns (reimbursement_data s))
              then bm ''Primary Third Party PCN'' else Str ''Not Available'') \<and>
           Network (out ! i) =
             (if ''Primary Network Reimbursement'' \<in> set (columns (reimbursement_data s))
              then bm ''Primary Network Reimbursement'' else Str ''Not Available'')"
proof -
  let ?ms = "reimbursement_match (valid_reimbursement L s) (NDC (out ! i))"
  note f = process_fields [OF ok run i]
  from ex have ne: "?ms \<noteq> []"
    unfolding f(1) by (simp only: match_exists_iff)
  from f(3) [OF ne] obtain k where k: "k < length ?ms"
    and bm: "best_match L (valid_reimbursement L s) (NDC (out ! i)) = Inr (?ms ! k)"
    and mf: "match_fields (columns (reimbursement_data s)) (?ms ! k) (out ! i)"
    by blast
  from k have "?ms ! k \<in> set ?ms" by simp
  then have mem: "?ms ! k \<in> set (rows (reimbursement_data s'))"
    and p: "positive_remit (?ms ! k)" "(?ms ! k) ''Dispensed Item NDC'' = NDC (out ! i)"
    unfolding f(1) by simp_all
  from mf have "Bin (out ! i) =
             (if ''Primary Third Party Bin'' \<in> set (columns (reimbursement_data s))
              then (?ms ! k) ''Primary Third Party Bin'' else Str ''Not Available'')"
    and "PCN (out ! i) =
             (if ''Primary Third Party PCN'' \<in> set (columns (reimbursement_data s))
              then (?ms ! k) ''Primary Third Party PCN'' else Str ''Not Available'')"
    and "Network (out ! i) =
             (if ''Primary Network Reimbursement'' \<in> set (columns (reimbursement_data s))
              then (?ms ! k) ''Primary Network Reimbursement'' else Str ''Not Available'')"
    by (simp_all add: match_fields_def series_get_def)
  with mem p bm show ?thesis by blast
qed




subsection \<open>The two example libraries\<close>

lemma example_library_ok: "argsort_ok example_library"
proof -
  have "sorted_wrt (\<lambda>i j. keys ! j \<le> keys ! i) (stable_argsort keys)" for keys :: "rat list"
  proof -
    have "sorted (map (\<lambda>i. - (keys ! i)) (stable_argsort keys))"
      unfolding stable_argsort_def by (rule sorted_sort_key)
    then show ?thesis by (simp add: sorted_wrt_map)
  qed
  then show ?thesis
    by (simp add: argsort_ok_def example_library_def stable_argsort_def)
qed




subsection \<open>Ties\<close>







subsection \<open>The tables after a run\<close>

lemma snd_process:
  "snd (process_files_with_adjusted_filtering L s) =
     (if missing_columns s = [] then standardize L s else s)"
proof (cases "missing_columns s")
  case Nil
  then show ?thesis
    by (simp add: process_checked split: sum.splits)
next
  case (Cons p rest)
  then show ?thesis
    by (cases p) (simp add: process_stopped)
qed



text \<open>
  C8 as amended. A run that finds a required column missing leaves the three tables as
  they were. Any other run replaces, in the tables it was given, the identifier column of
  each (NDC of the products and of the prices, Dispensed Item NDC of the reimbursements)
  by its normalized text; the columns, the number and order of the rows and every other
  cell stay as they were.
\<close>

theorem inputs_standardized_in_place:
  assumes run: "process_files_with_adjusted_filtering L s = (res, s')"
  shows "(missing_columns s \<noteq> [] \<longrightarrow> s' = s) \<and>
     (missing_columns s = [] \<longrightarrow>
        columns (top_100_data s') = columns (top_100_data s) \<and>
        columns (nadac_data s') = columns (nadac_data s) \<and>
        columns (reimbursement_data s') = columns (reimbursement_data s) \<and>
        rows (top_100_data s') =
          map (\<lambda>r. r(''NDC'' := normalize_ndc L (r ''NDC''))) (rows (top_100_data s)) \<and>
        rows (nadac_data s') =
          map (\<lambda>r. r(''NDC'' := normalize_ndc L (r ''NDC''))) (rows (nadac_data s)) \<and>
        rows (reimbursement_data s') =
          map (\<lambda>r. r(''Dispensed Item NDC'' := normalize_dispensed L (r ''Dispensed Item NDC'')))
            (rows (reimbursement_data s)))"
proof -
  from run have s': "s' = (if missing_columns s = [] then standardize L s else s)"
    using snd_process [of L s] by simp
  show ?thesis
  proof (cases "missing_columns s = []")
    case True
    with s' have "s' = standardize L s" by simp
    with True show ?thesis
      by (simp add: columns_standardize rows_standardize)
  next
    case False
    with s' show ?thesis by simp
  qed
qed


section \<open>The claims at the example inputs\<close>

lemma mixed_run:
  "process_files_with_adjusted_filtering example_library mixed_store =
     (Inr mixed_output, standardize example_library mixed_store)"
proof -
  have "fst (process_files_with_adjusted_filtering example_library mixed_store) = Inr mixed_output"
    by code_simp
  moreover have "missing_columns mixed_store = []"
    by (simp add: missing_columns_def mixed_store_def)
  ultimately show ?thesis
    by (simp add: prod_eq_iff snd_process)
qed

lemma mixed_match:
  "\<exists>r\<in>set (rows (reimbursement_data (standardize example_library mixed_store))).
     positive_remit r \<and> r ''Dispensed Item NDC'' = NDC (mixed_output ! 0)"
  by code_simp

theorem one_output_row_per_product_witness:
  "process_files_with_adjusted_filtering example_library mixed_store =
     (Inr mixed_output, standardize example_library mixed_store) \<and>
   argsort_ok example_library \<and> missing_columns mixed_store = [] \<and>
   \<not> (\<exists>r\<in>set (rows (reimbursement_data mixed_store)). \<exists>t. r ''Primary Remit Amount'' = Str t) \<and>
   length mixed_output = length (rows (top_100_data mixed_store)) \<and>
   Drug_Name (mixed_output ! 0) = (rows (top_100_data mixed_store) ! 0) ''Drug'' \<and>
   NDC (mixed_output ! 0) =
     normalize_ndc example_library ((rows (top_100_data mixed_store) ! 0) ''NDC'') \<and>
   Drug_Name (mixed_output ! 1) = (rows (top_100_data mixed_store) ! 1) ''Drug'' \<and>
   NDC (mixed_output ! 1) =
     normalize_ndc example_library ((rows (top_100_data mixed_store) ! 1) ''NDC'') \<and>
   (\<exists>out'. process_files_with_adjusted_filtering example_library mixed_store =
        (Inr out', standardize example_library mixed_store) \<and>
      length out' = length (rows (top_100_data mixed_store)))"
proof -
  have m: "missing_columns mixed_store = []"
    by (simp add: missing_columns_def mixed_store_def)
  have n: "\<forall>r\<in>set (rows (reimbursement_data mixed_store)). \<forall>t. r ''Primary Remit Amount'' \<noteq> Str t"
    by (simp add: mixed_store_def mk_row_def)
  have i: "0 < length mixed_output" "1 < length mixed_output"
    by (simp_all add: mixed_output_def)
  from one_output_row_per_product [of example_library mixed_store mixed_output
      "standardize example_library mixed_store"]
  show ?thesis
    using mixed_run example_library_ok m n i by blast
qed

theorem missing_column_stops_witness:
  "missing_columns no_drug_store \<noteq> [] \<and>
   process_files_with_adjusted_filtering example_library no_drug_store =
     (Inl (Stopped (''Top 100 file must contain '' @ [CHR 0x27] @ ''Drug'' @ [CHR 0x27] @ '' column.'')),
      no_drug_store)"
proof -
  have m: "missing_columns no_drug_store = [(''Top 100'', ''Drug'')]"
    by (simp add: missing_columns_def no_drug_store_def example_store_def)
  then have "missing_columns no_drug_store \<noteq> []" by simp
  from missing_column_stops [OF this, of example_library] this show ?thesis
    by (simp add: m must_contain_def)
qed

theorem reimbursement_positive_iff_match_witness:
  "argsort_ok example_library \<and>
   process_files_with_adjusted_filtering example_library mixed_store =
     (Inr mixed_output, standardize example_library mixed_store) \<and>
   0 < length mixed_output \<and> 1 < length mixed_output \<and>
   numeric (Reimbursement (mixed_output ! 0)) = Some 7 \<and>
   Reimbursement (mixed_output ! 1) = Float 0 \<and>
   (if \<exists>r\<in>set (rows (reimbursement_data (standardize example_library mixed_store))).
          positive_remit r \<and> r ''Dispensed Item NDC'' = NDC (mixed_output ! 0)
    then \<exists>v. numeric (Reimbursement (mixed_output ! 0)) = Some v \<and> 0 < v
    else Reimbursement (mixed_output ! 0) = Float 0)"
proof -
  have i: "0 < length mixed_output" "1 < length mixed_output"
    by (simp_all add: mixed_output_def)
  have v: "numeric (Reimbursement (mixed_output ! 0)) = Some 7"
    "Reimbursement (mixed_output ! 1) = Float 0"
    by (simp_all add: mixed_output_def)
  from reimbursement_positive_iff_match [OF example_library_ok mixed_run i(1)]
  show ?thesis
    using example_library_ok mixed_run i v by (intro conjI)
qed



theorem fallback_per_absent_column_witness:
  "argsort_ok example_library \<and>
   process_files_with_adjusted_filtering example_library mixed_store =
     (Inr mixed_output, standardize example_library mixed_store) \<and>
   0 < length mixed_output \<and>
   (\<exists>r\<in>set (rows (reimbursement_data (standardize example_library mixed_store))).
      positive_remit r \<and> r ''Dispensed Item NDC'' = NDC (mixed_output ! 0)) \<and>
   Bin (mixed_output ! 0) = Str ''Not Available'' \<and> Network (mixed_output ! 0) = NaN \<and>
   (\<exists>bm\<in>set (rows (reimbursement_data (standardize example_library mixed_store))).
      positive_remit bm \<and> bm ''Dispensed Item NDC'' = NDC (mixed_output ! 0) \<and>
      best_match example_library (valid_reimbursement example_library mixed_store)
        (NDC (mixed_output ! 0)) = Inr bm \<and>
      Bin (mixed_output ! 0) =
        (if ''Primary Third Party Bin'' \<in> set (columns (reimbursement_data mixed_store))
         then bm ''Primary Third Party Bin'' else Str ''Not Available'') \<and>
      PCN (mixed_output ! 0) =
        (if ''Primary Third Party PCN'' \<in> set (columns (reimbursement_data mixed_store))
         then bm ''Primary Third Party PCN'' else Str ''Not Available'') \<and>
      Network (mixed_output ! 0) =
        (if ''Primary Network Reimbursement'' \<in> set (columns (reimbursement_data mixed_store))
         then bm ''Primary Network Reimbursement'' else Str ''Not Available''))"
proof -
  have i: "0 < length mixed_output"
    by (simp add: mixed_output_def)
  have v: "Bin (mixed_output ! 0) = Str ''Not Available''" "Network (mixed_output ! 0) = NaN"
    by (simp_all add: mixed_output_def)
  from fallback_per_absent_column [OF example_library_ok mixed_run i mixed_match]
  show ?thesis
    using example_library_ok mixed_run i mixed_match v by (intro conjI)
qed

theorem null_network_counterexample:
  "fst (process_files_with_adjusted_filtering example_library null_network_store) =
     Inr [\<lparr>Drug_Name = Str ''Aspirin'', NDC = Str ''00000000123'', NADAC = Float (45 / 100),
           Bin = Str ''610014'', PCN = Str ''ADV'', Network = NaN,
           Reimbursement = Float (25 / 2), Price = NaN\<rparr>] \<and>
   fst (process_files_with_adjusted_filtering example_library null_network_store) \<noteq>
     Inr [\<lparr>Drug_Name = Str ''Aspirin'', NDC = Str ''00000000123'', NADAC = Float (45 / 100),
           Bin = Str ''610014'', PCN = Str ''ADV'', Network = Str ''Not Available'',
           Reimbursement = Float (25 / 2), Price = NaN\<rparr>]"
  by code_simp

lemma argsort_two:
  assumes ok: "argsort_ok L" and lt: "b < a"
  shows "argsort L [a, b] = [0, 1]"
proof -
  let ?p = "argsort L [a, b]"
  have d: "distinct ?p" and st: "set ?p = {0..<2}"
    and so: "sorted_wrt (\<lambda>i j. [a, b] ! j \<le> [a, b] ! i) ?p"
    using ok by (simp_all add: argsort_ok_def eval_nat_numeral)
  have "length ?p = 2"
    using distinct_card [OF d] st by simp
  then obtain x y where p: "?p = [x, y]"
    by (auto simp: length_Suc_conv eval_nat_numeral)
  have xy: "x \<noteq> y" "x < 2" "y < 2"
    using d st by (auto simp: p)
  have "[a, b] ! y \<le> [a, b] ! x"
    using so by (simp add: p)
  with xy lt have "x = 0 \<and> y = 1"
    by (cases "x = 0"; cases "y = 0") (auto simp: less_2_cases_iff)
  with p show ?thesis by simp
qed

text \<open>
  C2 as amended. On the example of the specification the run returns one row, with the
  fields of the record of amount 12.50; its Bin is missing, since the table has a Bin
  column (the other record fills it) and the selected record has no value there, and PCN
  is "Not Available", since the table has no PCN column.
\<close>

theorem example_scenario_output:
  assumes ok: "argsort_ok L"
  shows "fst (process_files_with_adjusted_filtering L example_store) =
     Inr [\<lparr>Drug_Name = Str ''Aspirin'', NDC = Str ''00000000123'', NADAC = Float (45 / 100),
           Bin = NaN, PCN = Str ''Not Available'', Network = Str ''NET1'',
           Reimbursement = Float (25 / 2), Price = NaN\<rparr>]"
proof -
  have a: "argsort L [25 / 2, 8] = [0, 1]"
    by (rule argsort_two [OF ok]) simp
  show ?thesis
    by (simp add: process_files_with_adjusted_filtering_def check_required_missing
        missing_columns_def example_store_def standardize_def set_column_def mk_row_def
        boolean_index_def nadac_lookup_def process_row_def best_match_def sort_values_def
        reimbursement_match_def series_get_def normalize_ndc_def normalize_dispensed_def
        split_first_def zfill_def a Let_def eval_nat_numeral)
qed

theorem example_scenario_output_witness:
  "argsort_ok example_library \<and>
   fst (process_files_with_adjusted_filtering example_library example_store) =
     Inr [\<lparr>Drug_Name = Str ''Aspirin'', NDC = Str ''00000000123'', NADAC = Float (45 / 100),
           Bin = NaN, PCN = Str ''Not Available'', Network = Str ''NET1'',
           Reimbursement = Float (25 / 2), Price = NaN\<rparr>]"
  using example_scenario_output [OF example_library_ok] example_library_ok by (intro conjI)

theorem example_scenario_counterexample:
  "fst (process_files_with_adjusted_filtering example_library example_store) \<noteq>
     Inr [\<lparr>Drug_Name = Str ''Aspirin'', NDC = Str ''00000000123'', NADAC = Float (45 / 100),
           Bin = Str ''Not Available'', PCN = Str ''Not Available'', Network = Str ''NET1'',
           Reimbursement = Float (25 / 2), Price = NaN\<rparr>]"
  by code_simp





theorem inputs_standardized_in_place_witness:
  "process_files_with_adjusted_filtering example_library example_store =
     (fst (process_files_with_adjusted_filtering example_library example_store),
      standardize example_library example_store) \<and>
   missing_columns example_store = [] \<and>
   columns (top_100_data (standardize example_library example_store)) =
     columns (top_100_data example_store) \<and>
   rows (top_100_data (standardize example_library example_store)) =
     map (\<lambda>r. r(''NDC'' := normalize_ndc example_library (r ''NDC'')))
       (rows (top_100_data example_store)) \<and>
   rows (reimbursement_data (standardize example_library example_store)) =
     map (\<lambda>r. r(''Dispensed Item NDC'' :=
                  normalize_dispensed example_library (r ''Dispensed Item NDC'')))
       (rows (reimbursement_data example_store))"
proof -
  have m: "missing_columns example_store = []"
    by (simp add: missing_columns_def example_store_def)
  then have run: "process_files_with_adjusted_filtering example_library example_store =
     (fst (process_files_with_adjusted_filtering example_library example_store),
      standardize example_library example_store)"
    by (simp add: prod_eq_iff snd_process)
  from inputs_standardized_in_place [OF run] m run show ?thesis
    by blast
qed

theorem inputs_changed_counterexample:
  "snd (process_files_with_adjusted_filtering example_library example_store) \<noteq> example_store"
proof
  assume "snd (process_files_with_adjusted_filtering example_library example_store) = example_store"
  then have "(rows (top_100_data (snd (process_files_with_adjusted_filtering example_library
                example_store))) ! 0) ''NDC'' =
             (rows (top_100_data example_store) ! 0) ''NDC''"
    by simp
  moreover have "(rows (top_100_data (snd (process_files_with_adjusted_filtering example_library
                example_store))) ! 0) ''NDC'' = Str ''00000000123''"
    by code_simp
  moreover have "(rows (top_100_data example_store) ! 0) ''NDC'' = Str ''123''"
    by code_simp
  ultimately show False by simp
qed


end
